theory Spec2Isabelle
  imports Main
begin

section \<open>The vote client of assets/10kb.js\<close>

text \<open>
  The script has three asynchronous functions, \<open>tryvote\<close>, \<open>get_id\<close> and
  \<open>populate_votes\<close>, which read and write the document, the key
  \<open>10kb_voter_id\<close> of localStorage, the alert box and the network. The model passes
  these four around as one record. Each function is run to completion from the state it
  is called in: what the server answers to a \<open>fetch\<close> is an argument of the function,
  and calls do not interleave.
\<close>

subsection \<open>Data\<close>

text \<open>
  A click handler registered by the script. \<open>Invoke s v\<close> is \<open>() => closure()\<close> for
  \<open>closure = vote_closure(s, v)\<close>: it calls \<open>tryvote(s, v)\<close>. \<open>Inert\<close> is
  \<open>(e) => closure\<close> (line 59): it evaluates the closure and calls nothing.
\<close>

datatype handler = Invoke string int | Inert

text \<open>
  An element of the document: whether it is a \<open>div\<close>, its \<open>id\<close> attribute (empty when
  it has none), its class, its content and its click listeners in the order of their
  registration. The document is the list of its elements in document order; vote elements
  are taken to have no element children.
\<close>

record element =
  is_div :: bool
  ident :: string
  className :: string
  inner_html :: string
  listeners :: "handler list"

text \<open>
  The requests of the script: \<open>POST /id/\<close>, \<open>POST /vote/\<close> with \<open>site_id\<close>,
  \<open>voter_id\<close> and \<open>vote\<close>, and \<open>POST /votes/\<close> with \<open>site_ids\<close> and \<open>voter_id\<close>
  as URLSearchParams serialises them.
\<close>

datatype request =
  Post_id
  | Post_vote string string int
  | Post_votes string string

record page =
  document :: "element list"
  localStorage :: "string option"
  alerted :: "string list"
  fetched :: "request list"

text \<open>
  The fields that the script reads from a parsed response body; a field the body does not
  have is \<open>None\<close> (JavaScript's \<open>undefined\<close>). \<open>code\<close> is an integer, \<open>status\<close> and
  \<open>voter_id\<close> are strings and \<open>site_ids\<close> is an array of strings, as the endpoints
  send them.
\<close>

record json =
  code :: "int option"
  status :: "string option"
  voter_id :: "string option"
  site_ids :: "string list option"

text \<open>
  What \<open>fetch\<close> followed by \<open>res.json()\<close> gives: \<open>Throws err\<close> when either promise
  rejects (the network failed, or the body is not JSON), \<open>Null_body\<close> when the body is
  the JSON value \<open>null\<close>, whose properties cannot be read, and \<open>Body j\<close> otherwise.
\<close>

datatype 'a response = Throws string | Null_body | Body 'a

datatype error = TypeError

text \<open>The values \<open>get_id\<close> returns.\<close>

datatype jsval = Null | Undefined | Str string

subsection \<open>Helpers of the runtime\<close>

text \<open>A value that may be \<open>undefined\<close>, interpolated into a template string.\<close>

definition js_string :: "string option \<Rightarrow> string" where
  "js_string v = (case v of None \<Rightarrow> ''undefined'' | Some s \<Rightarrow> s)"

text \<open>\<open>localStorage.getItem\<close> gives \<open>null\<close> for a missing key; as a string it is \<open>null\<close>.\<close>

definition js_null_string :: "string option \<Rightarrow> string" where
  "js_null_string v = (case v of None \<Rightarrow> ''null'' | Some s \<Rightarrow> s)"

text \<open>\<open>s.split(d)\<close> for a one-character separator.\<close>

fun split_on :: "char \<Rightarrow> string \<Rightarrow> string list" where
  "split_on d [] = [[]]"
| "split_on d (c # cs) =
     (if c = d then [] # split_on d cs
      else (case split_on d cs of
              [] \<Rightarrow> [[c]]
            | w # ws \<Rightarrow> (c # w) # ws))"

text \<open>\<open>xs[1]\<close>: the second entry, \<open>undefined\<close> when there is none.\<close>

fun second :: "'a list \<Rightarrow> 'a option" where
  "second (x # y # zs) = Some y"
| "second zs = None"

text \<open>\<open>ids.join(',')\<close>, which is how an array is turned into a string.\<close>

fun join_comma :: "string list \<Rightarrow> string" where
  "join_comma [] = []"
| "join_comma [x] = x"
| "join_comma (x # y # zs) = x @ '','' @ join_comma (y # zs)"

text \<open>\<open>s.match(/vote\-/)\<close>: the text \<open>vote-\<close> occurs somewhere in \<open>s\<close>.\<close>

fun vote_match :: "string \<Rightarrow> bool" where
  "vote_match [] = False"
| "vote_match (c # cs) = (take 5 (c # cs) = ''vote-'' \<or> vote_match cs)"

text \<open>\<open>document.getElementById\<close>: the first element with that id, or \<open>null\<close>.\<close>

definition getElementById :: "element list \<Rightarrow> string \<Rightarrow> element option" where
  "getElementById doc x = find (\<lambda>e. ident e = x) doc"

text \<open>
  Elements are objects: a write through the reference \<open>getElementById\<close> returned changes
  the first element of the document with that id.
\<close>

fun update_first :: "string \<Rightarrow> (element \<Rightarrow> element) \<Rightarrow> element list \<Rightarrow> element list" where
  "update_first x f [] = []"
| "update_first x f (e # es) = (if ident e = x then f e # es else e # update_first x f es)"

text \<open>
  \<open>let elem = document.getElementById(x)\<close> followed by writes to \<open>elem\<close>: a TypeError when
  \<open>elem\<close> is \<open>null\<close>.
\<close>

definition with_element :: "string \<Rightarrow> (element \<Rightarrow> element) \<Rightarrow> page \<Rightarrow> (error + unit) \<times> page" where
  "with_element x f st =
     (case getElementById (document st) x of
        None \<Rightarrow> (Inl TypeError, st)
      | Some _ \<Rightarrow> (Inr (), st\<lparr>document := update_first x f (document st)\<rparr>))"

text \<open>The \<open>tryvote\<close> calls that one click on an element starts, in order.\<close>

fun click :: "handler list \<Rightarrow> (string \<times> int) list" where
  "click [] = []"
| "click (Invoke s v # hs) = (s, v) # click hs"
| "click (Inert # hs) = click hs"

subsection \<open>The functions of the script\<close>

definition update_status :: "string \<Rightarrow> page \<Rightarrow> page" where
  "update_status msg st = st\<lparr>alerted := alerted st @ [msg]\<rparr>"

definition do_fetch :: "request \<Rightarrow> page \<Rightarrow> page" where
  "do_fetch r st = st\<lparr>fetched := fetched st @ [r]\<rparr>"

text \<open>
  The \<open>else\<close> branch of \<open>get_id\<close>, lines 73 to 89: the request to \<open>/id/\<close>;
  \<open>reply\<close> is what the server answers. \<open>setItem\<close> stores its argument as a string.
\<close>

definition request_id :: "json response \<Rightarrow> page \<Rightarrow> (error + jsval) \<times> page" where
  "request_id reply st =
     (let st1 = do_fetch Post_id st in
      case reply of
        Throws err \<Rightarrow> (Inr Null, update_status (''Error getting poster id: '' @ err) st1)
      | Null_body \<Rightarrow> (Inl TypeError, st1)
      | Body j \<Rightarrow>
          if code j = Some 200
          then (Inr (case voter_id j of None \<Rightarrow> Undefined | Some v \<Rightarrow> Str v),
                st1\<lparr>localStorage := Some (js_string (voter_id j))\<rparr>)
          else (Inr Null,
                update_status (''Unable to generate id: '' @ js_string (status j)) st1))"

text \<open>\<open>get_id(force)\<close>, lines 66 to 91; \<open>reply\<close> is what \<open>/id/\<close> answers if it is asked.\<close>

definition get_id :: "bool \<Rightarrow> json response \<Rightarrow> page \<Rightarrow> (error + jsval) \<times> page" where
  "get_id force reply st =
     (case localStorage st of
        None \<Rightarrow> request_id reply st
      | Some i \<Rightarrow> if i \<noteq> [] \<and> \<not> force then (Inr (Str i), st) else request_id reply st)"

text \<open>
  \<open>tryvote(site_id, vote)\<close>, lines 23 to 64; \<open>id_reply\<close> and \<open>vote_reply\<close> are what
  \<open>/id/\<close> and \<open>/vote/\<close> answer if they are asked. \<open>voter_id.length\<close> is a TypeError
  for \<open>null\<close> and \<open>undefined\<close>, and so is \<open>json['code']\<close> when \<open>json\<close> is
  \<open>undefined\<close> (after the catch) or \<open>null\<close>.
\<close>

definition tryvote ::
  "string \<Rightarrow> int \<Rightarrow> json response \<Rightarrow> json response \<Rightarrow> page \<Rightarrow> (error + unit) \<times> page" where
  "tryvote site_id vote id_reply vote_reply st =
     (case get_id False id_reply st of
        (Inl e, st1) \<Rightarrow> (Inl e, st1)
      | (Inr Null, st1) \<Rightarrow> (Inl TypeError, st1)
      | (Inr Undefined, st1) \<Rightarrow> (Inl TypeError, st1)
      | (Inr (Str voter), st1) \<Rightarrow>
          if voter = [] then (Inr (), st1)
          else
            (let st2 = (if vote < 0 \<or> vote > 1 then update_status ''Invalid vote!'' st1 else st1);
                 st3 = do_fetch (Post_vote site_id voter vote) st2
             in case vote_reply of
                  Throws err \<Rightarrow>
                    (Inl TypeError, update_status (''Error casting vote: '' @ err) st3)
                | Null_body \<Rightarrow> (Inl TypeError, st3)
                | Body j \<Rightarrow>
                    if code j = Some 200 then
                      (if vote = 1 then
                         with_element (''vote-'' @ site_id)
                           (\<lambda>elem. elem\<lparr>className := ''upvoted'',
                                         listeners := listeners elem @ [Invoke site_id 0]\<rparr>) st3
                       else if vote = 0 then
                         with_element (''vote-'' @ site_id)
                           (\<lambda>elem. elem\<lparr>className := ''unvoted'',
                                         listeners := listeners elem @ [Inert]\<rparr>) st3
                       else (Inr (), st3))
                    else (Inr (), update_status (''Unable to vote: '' @ js_string (status j)) st3)))"

text \<open>
  The scan of lines 96 to 103: every \<open>div\<close> whose id matches \<open>/vote\-/\<close> pushes
  \<open>elem.id.split('-')[1]\<close>. A matching id has a hyphen, so the second entry exists
  (lemma \<open>vote_match_site_of\<close>).
\<close>

definition site_of :: "string \<Rightarrow> string option" where
  "site_of x = second (split_on (CHR ''-'') x)"

fun discover :: "element list \<Rightarrow> string list" where
  "discover [] = []"
| "discover (e # es) =
     (if is_div e \<and> vote_match (ident e)
      then (case site_of (ident e) of None \<Rightarrow> discover es | Some i \<Rightarrow> i # discover es)
      else discover es)"

text \<open>The loop of lines 105 to 111; it is outside the \<open>try\<close>.\<close>

fun init_votes :: "string list \<Rightarrow> page \<Rightarrow> (error + unit) \<times> page" where
  "init_votes [] st = (Inr (), st)"
| "init_votes (site_id # ids) st =
     (case with_element (''vote-'' @ site_id)
             (\<lambda>elem. elem\<lparr>className := ''unvoted'',
                           listeners := listeners elem @ [Invoke site_id 1],
                           inner_html := ''&#10145;''\<rparr>) st of
        (Inl e, st1) \<Rightarrow> (Inl e, st1)
      | (Inr _, st1) \<Rightarrow> init_votes ids st1)"

text \<open>The loop of lines 126 to 131, inside the \<open>try\<close>.\<close>

fun apply_votes :: "string list \<Rightarrow> page \<Rightarrow> (error + unit) \<times> page" where
  "apply_votes [] st = (Inr (), st)"
| "apply_votes (site_id # ids) st =
     (case with_element (''vote-'' @ site_id)
             (\<lambda>elem. elem\<lparr>className := ''upvoted'',
                           listeners := listeners elem @ [Invoke site_id 0]\<rparr>) st of
        (Inl e, st1) \<Rightarrow> (Inl e, st1)
      | (Inr _, st1) \<Rightarrow> apply_votes ids st1)"

text \<open>
  \<open>populate_votes()\<close>, lines 93 to 136; \<open>reply\<close> is what \<open>/votes/\<close> answers. Whatever
  is thrown after line 116 is caught and the function returns; \<open>json['code']\<close> is not
  read.
\<close>

definition populate_votes :: "json response \<Rightarrow> page \<Rightarrow> (error + unit) \<times> page" where
  "populate_votes reply st =
     (let ids = discover (document st) in
      case init_votes ids st of
        (Inl e, st1) \<Rightarrow> (Inl e, st1)
      | (Inr _, st1) \<Rightarrow>
          (let st2 = do_fetch (Post_votes (join_comma ids) (js_null_string (localStorage st1))) st1
           in case reply of
                Throws err \<Rightarrow> (Inr (), st2)
              | Null_body \<Rightarrow> (Inr (), st2)
              | Body j \<Rightarrow>
                  (case site_ids j of
                     None \<Rightarrow> (Inr (), st2)
                   | Some ups \<Rightarrow> (Inr (), snd (apply_votes ups st2)))))"

subsection \<open>Sessions, replies and example pages\<close>

text \<open>
  A session: \<open>tryvote\<close> calls run one after the other, each with the replies the
  server gives to it.
\<close>

fun tryvotes :: "(string \<times> int \<times> json response \<times> json response) list \<Rightarrow> page \<Rightarrow> page" where
  "tryvotes [] st = st"
| "tryvotes ((site_id, vote, id_reply, vote_reply) # calls) st =
     tryvotes calls (snd (tryvote site_id vote id_reply vote_reply st))"

text \<open>
  The replies to \<open>/id/\<close> and \<open>/vote/\<close> that are failures: the request or the
  parsing of the body throws, the body is \<open>null\<close>, or the body's \<open>code\<close> is not 200
  (or is missing). After each of them no vote is confirmed and no identity is issued.
\<close>

fun failure :: "json response \<Rightarrow> bool" where
  "failure (Throws err) = True"
| "failure Null_body = True"
| "failure (Body j) = (code j \<noteq> Some 200)"

text \<open>
  The replies to \<open>/votes/\<close> from which no vote can be read: the request or the parsing
  throws, the body is \<open>null\<close>, or it has no \<open>site_ids\<close>.
\<close>

fun no_votes :: "json response \<Rightarrow> bool" where
  "no_votes (Throws err) = True"
| "no_votes Null_body = True"
| "no_votes (Body j) = (site_ids j = None)"

text \<open>
  Example inputs: a \<open>div\<close> as the server renders it, with no class, no content and no
  listener; a page just loaded, with nothing alerted and nothing sent; a body with only a
  \<open>code\<close>.
\<close>

definition rendered :: "string \<Rightarrow> element" where
  "rendered x = \<lparr>is_div = True, ident = x, className = [], inner_html = [], listeners = []\<rparr>"

definition opened :: "element list \<Rightarrow> string option \<Rightarrow> page" where
  "opened doc v = \<lparr>document = doc, localStorage = v, alerted = [], fetched = []\<rparr>"

definition answer :: "int \<Rightarrow> json" where
  "answer c = \<lparr>code = Some c, status = None, voter_id = None, site_ids = None\<rparr>"

section \<open>Properties\<close>

subsection \<open>The document\<close>

lemma find_update_first:
  assumes "\<And>e. ident (f e) = ident e"
  shows "find (\<lambda>e. ident e = y) (update_first x f doc) =
         (if x = y then map_option f (find (\<lambda>e. ident e = y) doc)
          else find (\<lambda>e. ident e = y) doc)"
  using assms by (induction doc) auto

lemma getElementById_update_first:
  assumes "\<And>e. ident (f e) = ident e"
  shows "getElementById (update_first x f doc) y =
         (if x = y then map_option f (getElementById doc y) else getElementById doc y)"
  unfolding getElementById_def using assms by (rule find_update_first)

lemma with_element_frame:
  "with_element x f st = (r, st') \<Longrightarrow>
     localStorage st' = localStorage st \<and> alerted st' = alerted st \<and> fetched st' = fetched st"
  by (auto simp: with_element_def split: option.splits)

lemma with_element_Inr:
  "with_element x f st = (Inr u, st') \<Longrightarrow>
     getElementById (document st) x \<noteq> None \<and> document st' = update_first x f (document st)"
  by (auto simp: with_element_def split: option.splits)

lemma click_append: "click (xs @ ys) = click xs @ click ys"
  by (induction xs rule: click.induct) auto

lemma click_replicate: "click (replicate n (Invoke s v)) = replicate n (s, v)"
  by (induction n) auto

subsection \<open>The two loops of \<open>populate_votes\<close>\<close>

lemma init_votes_frame:
  "init_votes ids st = (r, st') \<Longrightarrow>
     localStorage st' = localStorage st \<and> alerted st' = alerted st \<and> fetched st' = fetched st"
proof (induction ids arbitrary: st)
  case Nil
  then show ?case by simp
next
  case (Cons a ids)
  then show ?case
    by (auto split: prod.splits sum.splits dest!: with_element_frame)
qed

lemma apply_votes_frame:
  "apply_votes ids st = (r, st') \<Longrightarrow>
     localStorage st' = localStorage st \<and> alerted st' = alerted st \<and> fetched st' = fetched st"
proof (induction ids arbitrary: st)
  case Nil
  then show ?case by simp
next
  case (Cons a ids)
  then show ?case
    by (auto split: prod.splits sum.splits dest!: with_element_frame)
qed

lemma init_votes_ok:
  "\<forall>s \<in> set ids. getElementById (document st) (''vote-'' @ s) \<noteq> None \<Longrightarrow>
   \<exists>st'. init_votes ids st = (Inr (), st')"
proof (induction ids arbitrary: st)
  case Nil
  then show ?case by simp
next
  case (Cons a ids)
  from Cons.prems obtain e where e: "getElementById (document st) (''vote-'' @ a) = Some e"
    by auto
  let ?f = "\<lambda>elem. elem\<lparr>className := ''unvoted'',
                           listeners := listeners elem @ [Invoke a 1],
                           inner_html := ''&#10145;''\<rparr>"
  let ?st1 = "st\<lparr>document := update_first (''vote-'' @ a) ?f (document st)\<rparr>"
  have w: "with_element (''vote-'' @ a) ?f st = (Inr (), ?st1)"
    using e by (simp add: with_element_def)
  have "\<forall>s \<in> set ids. getElementById (document ?st1) (''vote-'' @ s) \<noteq> None"
    using Cons.prems by (simp add: getElementById_update_first)
  from Cons.IH[OF this] obtain st' where "init_votes ids ?st1 = (Inr (), st')" by blast
  then show ?case using w by simp
qed

lemma init_votes_Inr_lookup:
  "init_votes ids st = (Inr u, st') \<Longrightarrow>
   \<forall>s \<in> set ids. getElementById (document st) (''vote-'' @ s) \<noteq> None"
proof (induction ids arbitrary: st)
  case Nil
  then show ?case by simp
next
  case (Cons a ids)
  let ?f = "\<lambda>elem. elem\<lparr>className := ''unvoted'',
                           listeners := listeners elem @ [Invoke a 1],
                           inner_html := ''&#10145;''\<rparr>"
  from Cons.prems obtain st1 where
    w: "with_element (''vote-'' @ a) ?f st = (Inr (), st1)" and r: "init_votes ids st1 = (Inr u, st')"
    by (auto split: prod.splits sum.splits)
  from w have n: "getElementById (document st) (''vote-'' @ a) \<noteq> None"
    and d: "document st1 = update_first (''vote-'' @ a) ?f (document st)"
    by (auto dest: with_element_Inr)
  from Cons.IH [OF r] have "\<forall>s \<in> set ids. getElementById (document st) (''vote-'' @ s) \<noteq> None"
    unfolding d by (auto simp: getElementById_update_first split: if_splits)
  with n show ?case by simp
qed

lemma init_votes_element:
  "init_votes ids st = (Inr (), st') \<Longrightarrow>
   getElementById (document st') (''vote-'' @ s) =
     map_option (\<lambda>e. if s \<in> set ids
                      then e\<lparr>className := ''unvoted'',
                             listeners := listeners e @ replicate (count_list ids s) (Invoke s 1),
                             inner_html := ''&#10145;''\<rparr>
                      else e)
       (getElementById (document st) (''vote-'' @ s))"
proof (induction ids arbitrary: st)
  case Nil
  then show ?case by (simp add: option.map_ident)
next
  case (Cons a ids)
  let ?f = "\<lambda>elem. elem\<lparr>className := ''unvoted'',
                           listeners := listeners elem @ [Invoke a 1],
                           inner_html := ''&#10145;''\<rparr>"
  from Cons.prems obtain st1 where
    w: "with_element (''vote-'' @ a) ?f st = (Inr (), st1)" and r: "init_votes ids st1 = (Inr (), st')"
    by (auto split: prod.splits sum.splits)
  from w have d: "document st1 = update_first (''vote-'' @ a) ?f (document st)"
    by (auto dest: with_element_Inr)
  have g: "getElementById (document st1) (''vote-'' @ s) =
       (if a = s then map_option ?f (getElementById (document st) (''vote-'' @ s))
        else getElementById (document st) (''vote-'' @ s))"
    unfolding d by (simp add: getElementById_update_first)
  show ?case
    unfolding Cons.IH[OF r] g
    by (cases "getElementById (document st) (''vote-'' @ s)") (auto simp: replicate_append_same)
qed

lemma populate_votes_storage:
  "localStorage (snd (populate_votes reply st)) = localStorage st"
proof (cases "init_votes (discover (document st)) st")
  case (Pair r st1)
  then have a: "localStorage st1 = localStorage st" by (auto dest: init_votes_frame)
  show ?thesis
  proof (cases r)
    case (Inl e)
    with Pair a show ?thesis by (simp add: populate_votes_def)
  next
    case (Inr u)
    have "\<And>ups st2. localStorage (snd (apply_votes ups st2)) = localStorage st2"
      using apply_votes_frame by (metis prod.collapse)
    with Pair a Inr show ?thesis
      by (simp add: populate_votes_def do_fetch_def Let_def split: response.splits option.splits)
  qed
qed

lemma populate_votes_fetched:
  "fetched (snd (populate_votes reply st)) =
     (case fst (init_votes (discover (document st)) st) of
        Inl e \<Rightarrow> fetched st
      | Inr u \<Rightarrow> fetched st @ [Post_votes (join_comma (discover (document st)))
                                   (js_null_string (localStorage st))])"
proof (cases "init_votes (discover (document st)) st")
  case (Pair r st1)
  then have a: "localStorage st1 = localStorage st" "fetched st1 = fetched st"
    by (auto dest: init_votes_frame)
  show ?thesis
  proof (cases r)
    case (Inl e)
    with Pair a show ?thesis by (simp add: populate_votes_def)
  next
    case (Inr u)
    have "\<And>ups st2. fetched (snd (apply_votes ups st2)) = fetched st2"
      using apply_votes_frame by (metis prod.collapse)
    with Pair a Inr show ?thesis
      by (simp add: populate_votes_def do_fetch_def Let_def split: response.splits option.splits)
  qed
qed

text \<open>The bulk request is sent exactly when every discovered id names an element.\<close>

lemma populate_votes_sends_iff:
  "(fetched (snd (populate_votes reply st)) \<noteq> fetched st) =
   (\<forall>s \<in> set (discover (document st)). getElementById (document st) (''vote-'' @ s) \<noteq> None)"
proof
  assume "fetched (snd (populate_votes reply st)) \<noteq> fetched st"
  then obtain u where "fst (init_votes (discover (document st)) st) = Inr u"
    unfolding populate_votes_fetched by (cases "fst (init_votes (discover (document st)) st)") auto
  then have "init_votes (discover (document st)) st =
      (Inr u, snd (init_votes (discover (document st)) st))"
    by (metis prod.collapse)
  then show "\<forall>s \<in> set (discover (document st)). getElementById (document st) (''vote-'' @ s) \<noteq> None"
    by (rule init_votes_Inr_lookup)
next
  assume "\<forall>s \<in> set (discover (document st)). getElementById (document st) (''vote-'' @ s) \<noteq> None"
  from init_votes_ok [OF this] obtain st1
    where "init_votes (discover (document st)) st = (Inr (), st1)" by blast
  then show "fetched (snd (populate_votes reply st)) \<noteq> fetched st"
    unfolding populate_votes_fetched by simp
qed

lemma populate_votes_no_votes:
  assumes "init_votes (discover (document st)) st = (Inr (), st1)" and "no_votes reply"
  shows "fst (populate_votes reply st) = Inr ()
       \<and> document (snd (populate_votes reply st)) = document st1"
  using assms
  by (cases reply) (simp_all add: populate_votes_def do_fetch_def Let_def)

lemma count_discover:
  "count_list (discover doc) s =
     length (filter (\<lambda>e. is_div e \<and> vote_match (ident e) \<and> site_of (ident e) = Some s) doc)"
  by (induction doc) (auto split: option.splits)

subsection \<open>Splitting an element id\<close>

lemma split_on_head:
  "\<exists>ws. split_on d s = takeWhile (\<lambda>c. c \<noteq> d) s # ws"
  by (induction s) (auto split: list.splits)

lemma split_on_hyphen:
  "d \<in> set s \<Longrightarrow>
   split_on d s = takeWhile (\<lambda>c. c \<noteq> d) s # split_on d (tl (dropWhile (\<lambda>c. c \<noteq> d) s))"
proof (induction s)
  case Nil
  then show ?case by simp
next
  case (Cons c cs)
  show ?case
  proof (cases "c = d")
    case True
    then show ?thesis by simp
  next
    case False
    with Cons.prems have "d \<in> set cs" by simp
    from Cons.IH[OF this] False show ?thesis by simp
  qed
qed

lemma site_of_hyphen:
  assumes "CHR ''-'' \<in> set x"
  shows "site_of x = Some (takeWhile (\<lambda>c. c \<noteq> CHR ''-'') (tl (dropWhile (\<lambda>c. c \<noteq> CHR ''-'') x)))"
proof -
  obtain ws where "split_on (CHR ''-'') (tl (dropWhile (\<lambda>c. c \<noteq> CHR ''-'') x)) =
      takeWhile (\<lambda>c. c \<noteq> CHR ''-'') (tl (dropWhile (\<lambda>c. c \<noteq> CHR ''-'') x)) # ws"
    using split_on_head by blast
  then show ?thesis
    unfolding site_of_def split_on_hyphen[OF assms] by simp
qed

lemma vote_match_hyphen: "vote_match x \<Longrightarrow> CHR ''-'' \<in> set x"
proof (induction x)
  case Nil
  then show ?case by simp
next
  case (Cons c cs)
  show ?case
  proof (cases "take 5 (c # cs) = ''vote-''")
    case True
    have "CHR ''-'' \<in> set (take 5 (c # cs))" unfolding True by simp
    then show ?thesis by (rule in_set_takeD)
  next
    case False
    with Cons.prems have "vote_match cs" unfolding vote_match.simps by blast
    with Cons.IH show ?thesis by simp
  qed
qed

lemma vote_match_site_of: "vote_match x \<Longrightarrow> \<exists>i. site_of x = Some i"
  by (simp add: site_of_hyphen vote_match_hyphen)

subsection \<open>The identity\<close>

lemma get_id_document: "get_id force reply st = (r, st1) \<Longrightarrow> document st1 = document st"
  by (auto simp: get_id_def request_id_def do_fetch_def update_status_def Let_def
           split: option.splits if_splits response.splits)

lemma get_id_cached:
  "localStorage st = Some v \<Longrightarrow> v \<noteq> [] \<Longrightarrow> get_id False reply st = (Inr (Str v), st)"
  by (simp add: get_id_def)

lemma tryvote_cached:
  assumes "localStorage st = Some v" and "v \<noteq> []"
  shows "fetched (snd (tryvote site_id vote id_reply vote_reply st)) =
           fetched st @ [Post_vote site_id v vote]
       \<and> localStorage (snd (tryvote site_id vote id_reply vote_reply st)) = Some v"
  using assms
  by (auto simp: tryvote_def get_id_cached do_fetch_def update_status_def with_element_def Let_def
           split: response.splits option.splits)

lemma tryvote_issued:
  assumes "localStorage st = None \<or> localStorage st = Some []"
    and "code j = Some 200" and "voter_id j = Some v" and "v \<noteq> []"
  shows "fetched (snd (tryvote site_id vote (Body j) vote_reply st)) =
           fetched st @ [Post_id, Post_vote site_id v vote]
       \<and> localStorage (snd (tryvote site_id vote (Body j) vote_reply st)) = Some v"
proof -
  have g: "get_id False (Body j) st = request_id (Body j) st"
    using assms(1) by (auto simp: get_id_def)
  show ?thesis
    using assms(2-4)
    by (auto simp: tryvote_def g request_id_def js_string_def do_fetch_def
                   update_status_def with_element_def Let_def
             split: response.splits option.splits)
qed

lemma tryvotes_cached:
  assumes "localStorage st = Some v" and "v \<noteq> []"
  shows "fetched (tryvotes calls st) =
           fetched st @ map (\<lambda>(site_id, vote, id_reply, vote_reply). Post_vote site_id v vote) calls
       \<and> localStorage (tryvotes calls st) = Some v"
  using assms(1)
proof (induction calls arbitrary: st)
  case Nil
  then show ?case by simp
next
  case (Cons c calls)
  obtain site_id vote id_reply vote_reply where c: "c = (site_id, vote, id_reply, vote_reply)"
    by (cases c) auto
  let ?st1 = "snd (tryvote site_id vote id_reply vote_reply st)"
  from tryvote_cached [OF Cons.prems assms(2)]
  have f: "fetched ?st1 = fetched st @ [Post_vote site_id v vote]" and l: "localStorage ?st1 = Some v"
    by simp_all
  from Cons.IH [OF l] f show ?case unfolding c by simp
qed

subsection \<open>Failed requests\<close>

text \<open>
  A cast whose identity is available and whose request to \<open>/vote/\<close> fails leaves the
  document as it was and has sent that one request.
\<close>

lemma failed_cast_frame:
  assumes "get_id False id_reply st = (Inr (Str v), st1)" and "v \<noteq> []"
    and "failure vote_reply"
    and "tryvote site_id vote id_reply vote_reply st = (r, st')"
  shows "document st' = document st
       \<and> fetched st' = fetched st1 @ [Post_vote site_id v vote]
       \<and> localStorage st' = localStorage st1"
proof -
  have d: "document st1 = document st" using assms(1) by (rule get_id_document)
  show ?thesis
    using assms d
    by (cases vote_reply) (auto simp: tryvote_def do_fetch_def update_status_def Let_def)
qed

text \<open>Unless the body is \<open>null\<close>, it also alerts a message that names the failure.\<close>

lemma failed_cast_alerts:
  assumes "get_id False id_reply st = (Inr (Str v), st1)" and "v \<noteq> []"
    and "failure vote_reply" and "vote_reply \<noteq> Null_body"
    and "tryvote site_id vote id_reply vote_reply st = (r, st')"
  shows "alerted st' = alerted st1 @ (if vote < 0 \<or> vote > 1 then [''Invalid vote!''] else []) @
             [case vote_reply of
                Throws err \<Rightarrow> ''Error casting vote: '' @ err
              | Null_body \<Rightarrow> []
              | Body j \<Rightarrow> ''Unable to vote: '' @ js_string (status j)]"
  using assms
  by (cases vote_reply) (auto simp: tryvote_def do_fetch_def update_status_def Let_def)

text \<open>
  With no identity stored, a failed request to \<open>/id/\<close> ends \<open>tryvote\<close> before any
  request to \<open>/vote/\<close>; unless the body is \<open>null\<close>, \<open>get_id\<close> has returned
  \<open>null\<close> and alerted a message.
\<close>

lemma failed_identity_frame:
  assumes "localStorage st = None \<or> localStorage st = Some []"
    and "failure id_reply"
  shows "fst (tryvote site_id vote id_reply vote_reply st) = Inl TypeError
       \<and> fetched (snd (tryvote site_id vote id_reply vote_reply st)) = fetched st @ [Post_id]
       \<and> document (snd (tryvote site_id vote id_reply vote_reply st)) = document st
       \<and> localStorage (snd (tryvote site_id vote id_reply vote_reply st)) = localStorage st"
proof -
  have g: "\<And>f r. get_id f r st = request_id r st"
    using assms(1) by (auto simp: get_id_def)
  show ?thesis
    using assms(2)
    by (cases id_reply)
       (simp_all add: tryvote_def g request_id_def do_fetch_def update_status_def Let_def)
qed

lemma failed_identity_alerts:
  assumes "localStorage st = None \<or> localStorage st = Some []"
    and "failure id_reply" and "id_reply \<noteq> Null_body"
  shows "fst (get_id force id_reply st) = Inr Null
       \<and> alerted (snd (get_id force id_reply st)) =
           alerted st @ [case id_reply of
                           Throws err \<Rightarrow> ''Error getting poster id: '' @ err
                         | Null_body \<Rightarrow> []
                         | Body j \<Rightarrow> ''Unable to generate id: '' @ js_string (status j)]"
proof -
  have g: "\<And>f r. get_id f r st = request_id r st"
    using assms(1) by (auto simp: get_id_def)
  show ?thesis
    using assms(2,3)
    by (cases id_reply)
       (simp_all add: g request_id_def do_fetch_def update_status_def Let_def)
qed

section \<open>The claims\<close>

text \<open>
  C1. A site is hydrated as unvoted, then \<open>cast(a1, 1)\<close> and \<open>cast(a1, 0)\<close> are both
  confirmed. The class is \<open>unvoted\<close> again, but the control is not bound as before the
  toggle: the handler of the hydration and the one added by the first cast are still
  registered, and the handler added by the second cast (line 59) calls nothing. The next
  click starts \<open>tryvote(a1, 1)\<close> and then \<open>tryvote(a1, 0)\<close>.
\<close>

theorem toggle_leaves_old_handlers:
  "document (snd (populate_votes (Body ((answer 200)\<lparr>site_ids := Some []\<rparr>))
       (opened [rendered ''vote-a1''] (Some ''v-123'')))) =
     [\<lparr>is_div = True, ident = ''vote-a1'', className = ''unvoted'', inner_html = ''&#10145;'',
       listeners = [Invoke ''a1'' 1]\<rparr>]
   \<and> document (snd (tryvote ''a1'' 0 Null_body (Body (answer 200))
        (snd (tryvote ''a1'' 1 Null_body (Body (answer 200))
          (snd (populate_votes (Body ((answer 200)\<lparr>site_ids := Some []\<rparr>))
             (opened [rendered ''vote-a1''] (Some ''v-123'')))))))) =
     [\<lparr>is_div = True, ident = ''vote-a1'', className = ''unvoted'', inner_html = ''&#10145;'',
       listeners = [Invoke ''a1'' 1, Invoke ''a1'' 0, Inert]\<rparr>]
   \<and> click [Invoke ''a1'' 1, Invoke ''a1'' 0, Inert] = [(''a1'', 1), (''a1'', 0)]"
  by (simp add: populate_votes_def tryvote_def get_id_def opened_def rendered_def site_of_def
        with_element_def getElementById_def do_fetch_def js_null_string_def answer_def Let_def)

text \<open>
  C2. After hydration a click requests vote 1. Once that vote is confirmed the class is
  \<open>upvoted\<close> and the next click requests vote 1 again, followed by vote 0: the handler
  bound before the flip is still registered. A site that \<open>/votes/\<close> reports as upvoted
  is bound the same way by \<open>populate_votes\<close> itself.
\<close>

theorem upvoted_control_requests_vote_again:
  "map (click \<circ> listeners) (document (snd (populate_votes (Body ((answer 200)\<lparr>site_ids := Some []\<rparr>))
       (opened [rendered ''vote-a1''] (Some ''v-123''))))) = [[(''a1'', 1)]]
   \<and> map className (document (snd (tryvote ''a1'' 1 Null_body (Body (answer 200))
          (snd (populate_votes (Body ((answer 200)\<lparr>site_ids := Some []\<rparr>))
             (opened [rendered ''vote-a1''] (Some ''v-123''))))))) = [''upvoted'']
   \<and> map (click \<circ> listeners) (document (snd (tryvote ''a1'' 1 Null_body (Body (answer 200))
          (snd (populate_votes (Body ((answer 200)\<lparr>site_ids := Some []\<rparr>))
             (opened [rendered ''vote-a1''] (Some ''v-123''))))))) = [[(''a1'', 1), (''a1'', 0)]]
   \<and> map (click \<circ> listeners) (document (snd (populate_votes (Body ((answer 200)\<lparr>site_ids := Some [''a1'']\<rparr>))
       (opened [rendered ''vote-a1''] (Some ''v-123''))))) = [[(''a1'', 1), (''a1'', 0)]]"
  by (simp add: populate_votes_def tryvote_def get_id_def opened_def rendered_def site_of_def
        with_element_def getElementById_def do_fetch_def js_null_string_def answer_def Let_def)

text \<open>
  C3. \<open>tryvote(a1, 2)\<close> with a stored identity: \<open>Invalid vote!\<close> is alerted, and
  the function goes on (there is no \<open>return\<close> after line 33) to post the vote 2 to
  \<open>/vote/\<close>.
\<close>

theorem invalid_vote_is_sent:
  "tryvote ''a1'' 2 Null_body (Body (answer 200)) (opened [rendered ''vote-a1''] (Some ''v-123'')) =
     (Inr (), \<lparr>document = [rendered ''vote-a1''], localStorage = Some ''v-123'',
               alerted = [''Invalid vote!''], fetched = [Post_vote ''a1'' ''v-123'' 2]\<rparr>)"
  by (simp add: tryvote_def get_id_def opened_def update_status_def do_fetch_def answer_def Let_def)

text \<open>
  C4. \<open>tryvote(a1, 1)\<close> with a stored identity, when the body of the reply of
  \<open>/vote/\<close> is \<open>null\<close>: the vote is not confirmed and the document is as it was, but
  \<open>json['code']\<close> (line 49, after the catch) throws and nothing is alerted.
\<close>

theorem null_vote_reply_alerts_nothing:
  "tryvote ''a1'' 1 Null_body Null_body (opened [rendered ''vote-a1''] (Some ''v-123'')) =
     (Inl TypeError, \<lparr>document = [rendered ''vote-a1''], localStorage = Some ''v-123'',
                      alerted = [], fetched = [Post_vote ''a1'' ''v-123'' 1]\<rparr>)"
  by (simp add: tryvote_def get_id_def opened_def do_fetch_def Let_def)

text \<open>
  C5. With no identity stored, when the body of the reply of \<open>/id/\<close> is \<open>null\<close>:
  no identity is issued, but \<open>get_id\<close> does not return \<open>null\<close>: \<open>json['code']\<close>
  (line 83, after the catch) throws, in \<open>get_id\<close> and so in \<open>tryvote\<close>, and nothing
  is alerted. No request goes to \<open>/vote/\<close>.
\<close>

theorem null_id_reply_throws_in_get_id:
  "get_id False Null_body (opened [rendered ''vote-a1''] None) =
     (Inl TypeError, \<lparr>document = [rendered ''vote-a1''], localStorage = None,
                      alerted = [], fetched = [Post_id]\<rparr>)
   \<and> tryvote ''a1'' 1 Null_body (Body (answer 200)) (opened [rendered ''vote-a1''] None) =
     (Inl TypeError, \<lparr>document = [rendered ''vote-a1''], localStorage = None,
                      alerted = [], fetched = [Post_id]\<rparr>)"
  by (simp add: tryvote_def get_id_def request_id_def opened_def do_fetch_def Let_def)

text \<open>
  C6. With no identity stored, a cast to which \<open>/id/\<close> answers with code 200 and a
  non-empty \<open>voter_id\<close> sends one request to \<open>/id/\<close>, then the one to \<open>/vote/\<close>,
  and stores the identity. Every later cast of the session, on any site and whatever the
  server answers, sends its request to \<open>/vote/\<close> with that identity and none to
  \<open>/id/\<close>.
\<close>

theorem identity_issued_once:
  assumes "localStorage st = None \<or> localStorage st = Some []"
    and "code j = Some 200" and "voter_id j = Some v" and "v \<noteq> []"
    and "st1 = snd (tryvote site_id vote (Body j) vote_reply st)"
  shows "fetched st1 = fetched st @ [Post_id, Post_vote site_id v vote]
       \<and> localStorage st1 = Some v
       \<and> fetched (tryvotes calls st1) =
           fetched st1 @ map (\<lambda>(site_id, vote, id_reply, vote_reply). Post_vote site_id v vote) calls
       \<and> localStorage (tryvotes calls st1) = Some v"
proof -
  have a: "fetched st1 = fetched st @ [Post_id, Post_vote site_id v vote] \<and> localStorage st1 = Some v"
    unfolding assms(5) using assms(1-4) by (rule tryvote_issued)
  then have "localStorage st1 = Some v" by simp
  from tryvotes_cached [OF this assms(4)] a show ?thesis by simp
qed

theorem identity_issued_once_witness:
  "fetched (tryvotes [(''b2'', 1, Null_body, Body (answer 200)), (''a1'', 0, Null_body, Throws ''offline'')]
      (snd (tryvote ''a1'' 1 (Body ((answer 200)\<lparr>voter_id := Some ''v-123''\<rparr>)) (Body (answer 200))
              (opened [rendered ''vote-a1'', rendered ''vote-b2''] None)))) =
     [Post_id, Post_vote ''a1'' ''v-123'' 1, Post_vote ''b2'' ''v-123'' 1, Post_vote ''a1'' ''v-123'' 0]
   \<and> localStorage (snd (tryvote ''a1'' 1 (Body ((answer 200)\<lparr>voter_id := Some ''v-123''\<rparr>))
        (Body (answer 200)) (opened [rendered ''vote-a1'', rendered ''vote-b2''] None))) = Some ''v-123''"
proof -
  let ?st = "opened [rendered ''vote-a1'', rendered ''vote-b2''] None"
  let ?j = "(answer 200)\<lparr>voter_id := Some ''v-123''\<rparr>"
  have s: "localStorage ?st = None \<or> localStorage ?st = Some []" by (simp add: opened_def)
  have c: "code ?j = Some 200" by (simp add: answer_def)
  have i: "voter_id ?j = Some ''v-123''" by simp
  have n: "''v-123'' \<noteq> []" by simp
  from identity_issued_once [OF s c i n refl, of "''a1''" 1 "Body (answer 200)"
      "[(''b2'', 1, Null_body, Body (answer 200)), (''a1'', 0, Null_body, Throws ''offline'')]"]
  show ?thesis by (simp add: opened_def)
qed

text \<open>
  C7. On a page where every discovered id names an element, a bulk request that fails
  makes \<open>populate_votes\<close> return normally, and every discovered site has the class
  \<open>unvoted\<close> and, added to the listeners it had, one handler requesting vote 1 for each
  time its id was discovered: a click on it starts \<open>tryvote(s, 1)\<close>.
\<close>

theorem failed_bulk_fetch_leaves_unvoted:
  assumes "\<forall>s \<in> set (discover (document st)). getElementById (document st) (''vote-'' @ s) \<noteq> None"
    and "no_votes reply"
    and "s \<in> set (discover (document st))"
  shows "fst (populate_votes reply st) = Inr ()
       \<and> (\<exists>e e'. getElementById (document st) (''vote-'' @ s) = Some e
              \<and> getElementById (document (snd (populate_votes reply st))) (''vote-'' @ s) = Some e'
              \<and> className e' = ''unvoted''
              \<and> listeners e' =
                  listeners e @ replicate (count_list (discover (document st)) s) (Invoke s 1)
              \<and> click (listeners e') =
                  click (listeners e) @ replicate (count_list (discover (document st)) s) (s, 1)
              \<and> (s, 1) \<in> set (click (listeners e')))"
proof -
  let ?ids = "discover (document st)"
  from init_votes_ok [OF assms(1)] obtain st1
    where i: "init_votes ?ids st = (Inr (), st1)" by blast
  from populate_votes_no_votes [OF i assms(2)]
  have r: "fst (populate_votes reply st) = Inr ()"
    and d: "document (snd (populate_votes reply st)) = document st1" by simp_all
  from assms(1,3) obtain e where e: "getElementById (document st) (''vote-'' @ s) = Some e"
    by auto
  let ?e' = "e\<lparr>className := ''unvoted'',
                listeners := listeners e @ replicate (count_list ?ids s) (Invoke s 1),
                inner_html := ''&#10145;''\<rparr>"
  have g: "getElementById (document st1) (''vote-'' @ s) = Some ?e'"
    unfolding init_votes_element [OF i] e using assms(3) by simp
  have p: "0 < count_list ?ids s" using assms(3) count_list_0_iff [of ?ids s] by (cases "count_list ?ids s") simp_all
  have c: "click (listeners ?e') = click (listeners e) @ replicate (count_list ?ids s) (s, 1)"
    by (simp add: click_append click_replicate)
  have m: "(s, 1) \<in> set (click (listeners ?e'))"
    unfolding c using p by simp
  show ?thesis
    using r e g c m unfolding d by simp
qed

theorem failed_bulk_fetch_leaves_unvoted_witness:
  "fst (populate_votes (Throws ''TypeError: Failed to fetch'')
          (opened [rendered ''vote-a1'', rendered ''vote-b2''] None)) = Inr ()
   \<and> (\<exists>e'. getElementById (document (snd (populate_votes (Throws ''TypeError: Failed to fetch'')
          (opened [rendered ''vote-a1'', rendered ''vote-b2''] None)))) ''vote-b2'' = Some e'
        \<and> className e' = ''unvoted'' \<and> listeners e' = [Invoke ''b2'' 1]
        \<and> click (listeners e') = [(''b2'', 1)])"
proof -
  let ?st = "opened [rendered ''vote-a1'', rendered ''vote-b2''] None"
  have d: "discover (document ?st) = [''a1'', ''b2'']"
    by (simp add: opened_def rendered_def site_of_def)
  have h: "\<forall>s \<in> set (discover (document ?st)). getElementById (document ?st) (''vote-'' @ s) \<noteq> None"
    unfolding d by (simp add: opened_def rendered_def getElementById_def)
  have n: "no_votes (Throws ''TypeError: Failed to fetch'')" by simp
  have m: "''b2'' \<in> set (discover (document ?st))" unfolding d by simp
  have g: "getElementById (document ?st) ''vote-b2'' = Some (rendered ''vote-b2'')"
    by (simp add: opened_def rendered_def getElementById_def)
  from failed_bulk_fetch_leaves_unvoted [OF h n m]
  show ?thesis unfolding d using g by (auto simp: rendered_def)
qed

text \<open>
  C8, as stated, fails: two \<open>div\<close>s with the id \<open>vote-a1\<close> put \<open>a1\<close> twice into the
  request, and so do the ids \<open>vote-a\<close> and \<open>vote-a-1\<close> of two different elements.
\<close>

theorem duplicate_site_ids_are_sent:
  "discover [rendered ''vote-a1'', rendered ''vote-a1''] = [''a1'', ''a1'']
   \<and> \<not> distinct (discover [rendered ''vote-a1'', rendered ''vote-a1''])
   \<and> fetched (snd (populate_votes (Body ((answer 200)\<lparr>site_ids := Some []\<rparr>))
        (opened [rendered ''vote-a1'', rendered ''vote-a1''] None))) = [Post_votes ''a1,a1'' ''null'']
   \<and> fetched (snd (populate_votes (Body ((answer 200)\<lparr>site_ids := Some []\<rparr>))
        (opened [rendered ''vote-a'', rendered ''vote-a-1''] None))) = [Post_votes ''a,a'' ''null'']"
  by (simp add: populate_votes_def opened_def rendered_def site_of_def with_element_def
        getElementById_def do_fetch_def js_null_string_def answer_def Let_def)

text \<open>
  C8, amended. Nothing is deduplicated: on a page where every discovered id names an
  element, the \<open>site_ids\<close> sent to \<open>/votes/\<close> are the discovered ids joined by
  commas, in document order, and an id is among them once for each \<open>div\<close> that yields
  it.
\<close>

theorem bulk_request_lists_every_element:
  assumes "\<forall>s \<in> set (discover (document st)). getElementById (document st) (''vote-'' @ s) \<noteq> None"
  shows "fetched (snd (populate_votes reply st)) =
           fetched st @ [Post_votes (join_comma (discover (document st)))
                                    (js_null_string (localStorage st))]
       \<and> count_list (discover (document st)) s =
           length (filter (\<lambda>e. is_div e \<and> vote_match (ident e) \<and> site_of (ident e) = Some s)
                     (document st))"
proof -
  from init_votes_ok [OF assms] obtain st1
    where "init_votes (discover (document st)) st = (Inr (), st1)" by blast
  then have "fetched (snd (populate_votes reply st)) =
           fetched st @ [Post_votes (join_comma (discover (document st)))
                                    (js_null_string (localStorage st))]"
    unfolding populate_votes_fetched by simp
  then show ?thesis by (simp add: count_discover)
qed

theorem bulk_request_lists_every_element_witness:
  "fetched (snd (populate_votes (Throws ''offline'')
       (opened [rendered ''vote-a1'', rendered ''vote-b2'', rendered ''vote-a1''] (Some ''v-123'')))) =
     [Post_votes ''a1,b2,a1'' ''v-123'']
   \<and> count_list (discover [rendered ''vote-a1'', rendered ''vote-b2'', rendered ''vote-a1'']) ''a1'' = 2"
proof -
  let ?st = "opened [rendered ''vote-a1'', rendered ''vote-b2'', rendered ''vote-a1''] (Some ''v-123'')"
  have d': "discover [rendered ''vote-a1'', rendered ''vote-b2'', rendered ''vote-a1''] = [''a1'', ''b2'', ''a1'']"
    by (simp add: rendered_def site_of_def)
  have d: "discover (document ?st) = [''a1'', ''b2'', ''a1'']"
    using d' by (simp add: opened_def)
  have h: "\<forall>s \<in> set (discover (document ?st)). getElementById (document ?st) (''vote-'' @ s) \<noteq> None"
    unfolding d by (simp add: opened_def rendered_def getElementById_def)
  from bulk_request_lists_every_element [OF h, of "Throws ''offline''" "''a1''"]
  have "fetched (snd (populate_votes (Throws ''offline'') ?st)) =
          fetched ?st @ [Post_votes (join_comma [''a1'', ''b2'', ''a1'']) (js_null_string (localStorage ?st))]"
    unfolding d by simp
  then show ?thesis unfolding d' by (simp add: opened_def js_null_string_def)
qed

text \<open>
  C9. \<open>populate_votes\<close> leaves the stored identity as it is and sends no request to
  \<open>/id/\<close>: it sends nothing, or the one request to \<open>/votes/\<close>. With no identity
  stored, and every discovered id naming an element, that request is sent with the
  \<open>voter_id\<close> \<open>null\<close>.
\<close>

theorem hydration_keeps_identity_store:
  "localStorage (snd (populate_votes reply st)) = localStorage st
   \<and> (fetched (snd (populate_votes reply st)) = fetched st
      \<or> fetched (snd (populate_votes reply st)) =
          fetched st @ [Post_votes (join_comma (discover (document st)))
                                   (js_null_string (localStorage st))])
   \<and> ((\<forall>s \<in> set (discover (document st)).
          getElementById (document st) (''vote-'' @ s) \<noteq> None) \<and> localStorage st = None
        \<longrightarrow> fetched (snd (populate_votes reply st)) =
              fetched st @ [Post_votes (join_comma (discover (document st))) ''null''])"
proof -
  have a: "localStorage (snd (populate_votes reply st)) = localStorage st"
    by (rule populate_votes_storage)
  have b: "fetched (snd (populate_votes reply st)) = fetched st
      \<or> fetched (snd (populate_votes reply st)) =
          fetched st @ [Post_votes (join_comma (discover (document st)))
                                   (js_null_string (localStorage st))]"
    unfolding populate_votes_fetched by (simp split: sum.splits)
  have c: "fetched (snd (populate_votes reply st)) =
              fetched st @ [Post_votes (join_comma (discover (document st))) ''null'']"
    if "\<forall>s \<in> set (discover (document st)). getElementById (document st) (''vote-'' @ s) \<noteq> None"
      and "localStorage st = None"
  proof -
    from init_votes_ok [OF that(1)] obtain st1
      where "init_votes (discover (document st)) st = (Inr (), st1)" by blast
    then show ?thesis
      unfolding populate_votes_fetched using that(2) by (simp add: js_null_string_def)
  qed
  from a b c show ?thesis by blast
qed

theorem hydration_keeps_identity_store_witness:
  "localStorage (snd (populate_votes (Body ((answer 200)\<lparr>site_ids := Some [''b2'']\<rparr>))
       (opened [rendered ''vote-a1'', rendered ''vote-b2''] None))) = None
   \<and> fetched (snd (populate_votes (Body ((answer 200)\<lparr>site_ids := Some [''b2'']\<rparr>))
       (opened [rendered ''vote-a1'', rendered ''vote-b2''] None))) = [Post_votes ''a1,b2'' ''null'']"
proof -
  let ?st = "opened [rendered ''vote-a1'', rendered ''vote-b2''] None"
  have d: "discover (document ?st) = [''a1'', ''b2'']"
    by (simp add: opened_def rendered_def site_of_def)
  have h: "(\<forall>s \<in> set (discover (document ?st)).
          getElementById (document ?st) (''vote-'' @ s) \<noteq> None) \<and> localStorage ?st = None"
    unfolding d by (simp add: opened_def rendered_def getElementById_def)
  from hydration_keeps_identity_store [of "Body ((answer 200)\<lparr>site_ids := Some [''b2'']\<rparr>)" ?st] h
  show ?thesis unfolding d by (simp add: opened_def)
qed

text \<open>
  C10. The id pushed for an element whose id matches \<open>/vote\-/\<close> is the text between
  the first hyphen of the element id and the second (or the end). For an element rendered
  as \<open>vote-\<close> followed by the site id that is the site id up to its first hyphen: the
  site id itself exactly when it has no hyphen. This is the id that \<open>discover\<close> gives to
  the bulk request and to the lookups.
\<close>

theorem site_id_between_hyphens:
  "(vote_match x \<longrightarrow>
      site_of x = Some (takeWhile (\<lambda>c. c \<noteq> CHR ''-'') (tl (dropWhile (\<lambda>c. c \<noteq> CHR ''-'') x))))
   \<and> site_of (''vote-'' @ s) = Some (takeWhile (\<lambda>c. c \<noteq> CHR ''-'') s)
   \<and> (site_of (''vote-'' @ s) = Some s \<longleftrightarrow> CHR ''-'' \<notin> set s)
   \<and> (is_div e \<and> ident e = ''vote-'' @ s \<longrightarrow>
        discover (e # es) = takeWhile (\<lambda>c. c \<noteq> CHR ''-'') s # discover es)"
proof -
  have a: "vote_match x \<longrightarrow>
      site_of x = Some (takeWhile (\<lambda>c. c \<noteq> CHR ''-'') (tl (dropWhile (\<lambda>c. c \<noteq> CHR ''-'') x)))"
    by (simp add: site_of_hyphen vote_match_hyphen)
  have b: "site_of (''vote-'' @ s) = Some (takeWhile (\<lambda>c. c \<noteq> CHR ''-'') s)"
    by (simp add: site_of_hyphen)
  have c: "(takeWhile (\<lambda>c. c \<noteq> CHR ''-'') s = s) = (CHR ''-'' \<notin> set s)"
    by (auto simp: takeWhile_eq_all_conv)
  have d: "discover (e # es) = takeWhile (\<lambda>c. c \<noteq> CHR ''-'') s # discover es"
    if "is_div e" and "ident e = ''vote-'' @ s"
    using that b by simp
  show ?thesis using a b c d by simp
qed

theorem site_id_between_hyphens_witness:
  "vote_match ''upvote-x-y'' \<and> site_of ''upvote-x-y'' = Some ''x''
   \<and> site_of ''vote-my-site'' = Some ''my''
   \<and> site_of ''vote-a1'' = Some ''a1''
   \<and> discover [rendered ''vote-my-site''] = [''my'']"
proof -
  have m: "vote_match ''upvote-x-y''" by simp
  have r: "is_div (rendered ''vote-my-site'') \<and> ident (rendered ''vote-my-site'') = ''vote-'' @ ''my-site''"
    by (simp add: rendered_def)
  from site_id_between_hyphens [of "''upvote-x-y''" "''my-site''" "rendered ''vote-my-site''" "[]"]
       site_id_between_hyphens [of "''upvote-x-y''" "''a1''" "rendered ''vote-my-site''" "[]"] m r
  show ?thesis by simp
qed

end
